theory Spec2Isabelle
  imports Main "HOL-Library.Word"
begin

unbundle bit_operations_syntax

section \<open>Bytes and big-endian integers (encoding/binary, math/big)\<close>

type_synonym byte = "8 word"

text \<open>
  \<^verbatim>\<open>binary.BigEndian.PutUint64(b, v)\<close> on an 8-byte buffer: the most significant
  byte first.
\<close>

definition PutUint64 :: "64 word \<Rightarrow> byte list" where
  "PutUint64 v = map (\<lambda>i. ucast (drop_bit (8 * (7 - i)) v)) [0..<8]"

text \<open>
  \<^verbatim>\<open>binary.BigEndian.Uint64(b)\<close> reads the first eight bytes of \<open>b\<close>. Go panics
  when \<open>b\<close> is shorter; both callers below pad to eight bytes first.
\<close>

definition Uint64 :: "byte list \<Rightarrow> 64 word" where
  "Uint64 b = foldl (\<lambda>acc x. push_bit 8 acc OR ucast x) 0 (take 8 b)"

section \<open>math/big: integers from and to big-endian bytes\<close>

text \<open>
  The values handled here are never negative (\<^verbatim>\<open>SetBytes\<close> yields a non-negative
  integer), so a \<^verbatim>\<open>*big.Int\<close> is a \<open>nat\<close>. \<^verbatim>\<open>SetBytes\<close> reads a big-endian
  unsigned integer; \<^verbatim>\<open>Bytes\<close> writes the shortest big-endian form (empty for 0).
\<close>

definition SetBytes :: "byte list \<Rightarrow> nat" where
  "SetBytes buf = foldl (\<lambda>acc b. acc * 256 + unat b) 0 buf"

function Bytes :: "nat \<Rightarrow> byte list" where
  "Bytes n = (if n = 0 then [] else Bytes (n div 256) @ [of_nat (n mod 256)])"
  by pat_completeness auto
termination
  by (relation "measure id") auto

declare Bytes.simps [simp del]

text \<open>
  \<^verbatim>\<open>z.Exp(x, y, m)\<close> for \<open>y \<ge> 0\<close>: \<open>x ^ y mod m\<close>, and \<open>x ^ y\<close> when \<open>m = 0\<close>,
  by repeated squaring.
\<close>

function Exp :: "nat \<Rightarrow> nat \<Rightarrow> nat \<Rightarrow> nat" where
  "Exp x y m =
     (if y = 0 then 1 mod m
      else let h = Exp x (y div 2) m; sq = (h * h) mod m
           in if even y then sq else (sq * x) mod m)"
  by pat_completeness auto
termination
  by (relation "measure (\<lambda>(x, y, m). y)") auto

declare Exp.simps [simp del]

text \<open>
  The built-in \<^verbatim>\<open>copy(dst, src)\<close>: the first \<open>min (len dst) (len src)\<close> bytes of
  \<open>dst\<close> are overwritten; the result is the new contents of \<open>dst\<close>.
\<close>

definition copy_bytes :: "byte list \<Rightarrow> byte list \<Rightarrow> byte list" where
  "copy_bytes dst src = take (length dst) src @ drop (length src) dst"

section \<open>lib/common/integer.go and lib/common/length.go\<close>

definition INTEGER_SIZE :: nat where
  "INTEGER_SIZE = 8"

text \<open>
  Go's \<open>int\<close> is taken as the 64-bit two's complement integer: a \<open>64 word\<close>, read by
  \<open>sint\<close>. The conversions \<open>uint64(value)\<close> and \<open>int(...)\<close> keep the bits.
\<close>

definition Integer :: "byte list \<Rightarrow> 64 word" where
  "Integer number =
     (let num_len = length number;
          number' = (if num_len < INTEGER_SIZE
                     then replicate (INTEGER_SIZE - num_len) 0 @ number
                     else number)
      in Uint64 number')"

definition IntegerBytes :: "64 word \<Rightarrow> byte list" where
  "IntegerBytes v = PutUint64 v"

definition Length :: "byte list \<Rightarrow> 64 word" where
  "Length number =
     (let num_len = length number;
          number' = (if num_len < INTEGER_SIZE
                     then replicate (INTEGER_SIZE - num_len) 0 @ number
                     else number)
      in Uint64 number')"

text \<open>
  The loop \<^verbatim>\<open>for i, j := range onumber { index = i; if j != 0 { break } }\<close>:
  \<open>range_scan rest i index\<close> runs it on the remaining bytes \<open>rest\<close>, the first of them at
  position \<open>i\<close>, with the current value of \<open>index\<close>.
\<close>

fun range_scan :: "byte list \<Rightarrow> nat \<Rightarrow> nat \<Rightarrow> nat" where
  "range_scan [] i index = index"
| "range_scan (j # rest) i index = (if j \<noteq> 0 then i else range_scan rest (Suc i) i)"

definition LengthBytes :: "64 word \<Rightarrow> byte list" where
  "LengthBytes v =
     (let onumber = PutUint64 v;
          index = range_scan onumber 0 0;
          index' = (if length (drop index onumber) = 1 then index - 1 else index)
      in drop index' onumber)"

section \<open>lib/crypto/dsa/dsa.go\<close>

definition dsap :: nat where
  "dsap = SetBytes
    [0x9c, 0x05, 0xb2, 0xaa, 0x96, 0x0d, 0x9b, 0x97, 0xb8, 0x93, 0x19, 0x63, 0xc9, 0xcc, 0x9e, 0x8c,
     0x30, 0x26, 0xe9, 0xb8, 0xed, 0x92, 0xfa, 0xd0, 0xa6, 0x9c, 0xc8, 0x86, 0xd5, 0xbf, 0x80, 0x15,
     0xfc, 0xad, 0xae, 0x31, 0xa0, 0xad, 0x18, 0xfa, 0xb3, 0xf0, 0x1b, 0x00, 0xa3, 0x58, 0xde, 0x23,
     0x76, 0x55, 0xc4, 0x96, 0x4a, 0xfa, 0xa2, 0xb3, 0x37, 0xe9, 0x6a, 0xd3, 0x16, 0xb9, 0xfb, 0x1c,
     0xc5, 0x64, 0xb5, 0xae, 0xc5, 0xb6, 0x9a, 0x9f, 0xf6, 0xc3, 0xe4, 0x54, 0x87, 0x07, 0xfe, 0xf8,
     0x50, 0x3d, 0x91, 0xdd, 0x86, 0x02, 0xe8, 0x67, 0xe6, 0xd3, 0x5d, 0x22, 0x35, 0xc1, 0x86, 0x9c,
     0xe2, 0x47, 0x9c, 0x3b, 0x9d, 0x54, 0x01, 0xde, 0x04, 0xe0, 0x72, 0x7f, 0xb3, 0x3d, 0x65, 0x11,
     0x28, 0x5d, 0x4c, 0xf2, 0x95, 0x38, 0xd9, 0xe3, 0xb6, 0x05, 0x1f, 0x5b, 0x22, 0xcc, 0x1c, 0x93]"

definition dsaq :: nat where
  "dsaq = SetBytes
    [0xa5, 0xdf, 0xc2, 0x8f, 0xef, 0x4c, 0xa1, 0xe2, 0x86, 0x74, 0x4c, 0xd8, 0xee, 0xd9, 0xd2, 0x9d,
     0x68, 0x40, 0x46, 0xb7]"

definition dsag :: nat where
  "dsag = SetBytes
    [0x0c, 0x1f, 0x4d, 0x27, 0xd4, 0x00, 0x93, 0xb4, 0x29, 0xe9, 0x62, 0xd7, 0x22, 0x38, 0x24, 0xe0,
     0xbb, 0xc4, 0x7e, 0x7c, 0x83, 0x2a, 0x39, 0x23, 0x6f, 0xc6, 0x83, 0xaf, 0x84, 0x88, 0x95, 0x81,
     0x07, 0x5f, 0xf9, 0x08, 0x2e, 0xd3, 0x23, 0x53, 0xd4, 0x37, 0x4d, 0x73, 0x01, 0xcd, 0xa1, 0xd2,
     0x3c, 0x43, 0x1f, 0x46, 0x98, 0x59, 0x9d, 0xda, 0x02, 0x45, 0x18, 0x24, 0xff, 0x36, 0x97, 0x52,
     0x59, 0x36, 0x47, 0xcc, 0x3d, 0xdc, 0x19, 0x7d, 0xe9, 0x85, 0xe4, 0x3d, 0x13, 0x6c, 0xdc, 0xfc,
     0x6b, 0xd5, 0x40, 0x9c, 0xd2, 0xf4, 0x50, 0x82, 0x11, 0x42, 0xa5, 0xe6, 0xf8, 0xeb, 0x1c, 0x3a,
     0xb5, 0xd0, 0x48, 0x4b, 0x81, 0x29, 0xfc, 0xf1, 0x7b, 0xce, 0x4f, 0x7f, 0x33, 0x32, 0x1c, 0x3c,
     0xb3, 0xdb, 0xb1, 0x4a, 0x90, 0x5e, 0x7b, 0x2b, 0x3e, 0x93, 0xbe, 0x47, 0x08, 0xcb, 0xcc, 0x82]"

record dsa_Parameters =
  dsa_P :: nat
  dsa_Q :: nat
  dsa_G :: nat

record dsa_PublicKey = dsa_Parameters +
  dsa_Y :: nat

record dsa_PrivateKey = dsa_PublicKey +
  dsa_X :: nat

datatype dsa_error =
    ErrInvalidSignature
  | ErrBadSignatureSize
  | ErrInvalidKeyFormat
  | ErrSign string
  | PanicNilKey
  | PanicSliceBounds

definition createDSAPublicKey :: "nat \<Rightarrow> dsa_PublicKey" where
  "createDSAPublicKey y = \<lparr>dsa_P = dsap, dsa_Q = dsaq, dsa_G = dsag, dsa_Y = y\<rparr>"

text \<open>\<open>None\<close> is the nil pointer that \<^verbatim>\<open>createDSAPrivkey\<close> returns in its else branch.\<close>

definition createDSAPrivkey :: "nat \<Rightarrow> dsa_PrivateKey option" where
  "createDSAPrivkey x =
     (if x < dsap
      then Some \<lparr>dsa_P = dsap, dsa_Q = dsaq, dsa_G = dsag, dsa_Y = Exp dsag x dsap, dsa_X = x\<rparr>
      else None)"

text \<open>
  \<^verbatim>\<open>DSAPublicKey\<close> is \<^verbatim>\<open>[128]byte\<close> and \<^verbatim>\<open>DSAPrivateKey\<close> is \<^verbatim>\<open>[20]byte\<close>: byte lists
  of that length.
\<close>

definition is_DSAPublicKey :: "byte list \<Rightarrow> bool" where
  "is_DSAPublicKey k = (length k = 128)"

definition is_DSAPrivateKey :: "byte list \<Rightarrow> bool" where
  "is_DSAPrivateKey k = (length k = 20)"

record DSAVerifier =
  verifier_k :: dsa_PublicKey

record DSASigner =
  signer_k :: "dsa_PrivateKey option"

definition NewVerifier :: "byte list \<Rightarrow> DSAVerifier" where
  "NewVerifier k = \<lparr>verifier_k = createDSAPublicKey (SetBytes k)\<rparr>"

text \<open>
  \<^verbatim>\<open>VerifyHash\<close>. The standard library's \<^verbatim>\<open>dsa.Verify(pub, hash, r, s)\<close> is the
  parameter \<open>dsa_Verify\<close>. The result is the returned \<open>err\<close>, \<open>None\<close> for nil.
\<close>

definition VerifyHash ::
  "(dsa_PublicKey \<Rightarrow> byte list \<Rightarrow> nat \<Rightarrow> nat \<Rightarrow> bool)
     \<Rightarrow> DSAVerifier \<Rightarrow> byte list \<Rightarrow> byte list \<Rightarrow> dsa_error option" where
  "VerifyHash dsa_Verify v h sig =
     (if length sig = 40
      then (let r = SetBytes (take 20 sig);
                s = SetBytes (drop 20 sig)
            in if dsa_Verify (verifier_k v) h r s then None else Some ErrInvalidSignature)
      else Some ErrBadSignatureSize)"

definition NewSigner :: "byte list \<Rightarrow> DSASigner" where
  "NewSigner k = \<lparr>signer_k = createDSAPrivkey (SetBytes k)\<rparr>"

text \<open>\<^verbatim>\<open>Public\<close> returns the pair \<open>(pk, err)\<close>; \<open>pk\<close> starts as 128 zero bytes.\<close>

definition Public :: "byte list \<Rightarrow> byte list \<times> dsa_error option" where
  "Public k =
     (case createDSAPrivkey (SetBytes k) of
        None \<Rightarrow> (replicate 128 0, Some ErrInvalidKeyFormat)
      | Some p \<Rightarrow> (copy_bytes (replicate 128 0) (Bytes (dsa_Y p)), None))"

text \<open>
  \<^verbatim>\<open>SignHash\<close>. The standard library's \<^verbatim>\<open>dsa.Sign(rand.Reader, priv, hash)\<close>, with the
  randomness it draws, is the parameter \<open>dsa_Sign\<close>; it returns an error or the pair
  \<open>(r, s)\<close>. \<^verbatim>\<open>dsa.Sign\<close> dereferences the key, so a nil key panics. The slice
  expression \<^verbatim>\<open>sig[20-rl:20]\<close> panics when \<open>rl > 20\<close>, and \<^verbatim>\<open>sig[20+(20-sl):]\<close> when
  \<open>sl > 40\<close>.
\<close>

definition SignHash ::
  "(dsa_PrivateKey \<Rightarrow> byte list \<Rightarrow> string + nat \<times> nat)
     \<Rightarrow> DSASigner \<Rightarrow> byte list \<Rightarrow> dsa_error + byte list" where
  "SignHash dsa_Sign ds h =
     (case signer_k ds of
        None \<Rightarrow> Inl PanicNilKey
      | Some k \<Rightarrow>
          (case dsa_Sign k h of
             Inl e \<Rightarrow> Inl (ErrSign e)
           | Inr (r, s) \<Rightarrow>
               (let sig0 = replicate 40 0;
                    rb = Bytes r;
                    rl = length rb
                in if 20 < rl then Inl PanicSliceBounds
                   else
                     (let sig1 = take (20 - rl) sig0
                                   @ copy_bytes (take rl (drop (20 - rl) sig0)) rb
                                   @ drop 20 sig0;
                          sb = Bytes s;
                          sl = length sb
                      in if 40 < sl then Inl PanicSliceBounds
                         else Inr (take (40 - sl) sig1
                                     @ copy_bytes (drop (40 - sl) sig1) sb)))))"

section \<open>KeysAndCert (package common)\<close>

definition KEYS_AND_CERT_PUBKEY_SIZE :: nat where
  "KEYS_AND_CERT_PUBKEY_SIZE = 256"

definition KEYS_AND_CERT_SPK_SIZE :: nat where
  "KEYS_AND_CERT_SPK_SIZE = 128"

definition KEYS_AND_CERT_MIN_SIZE :: nat where
  "KEYS_AND_CERT_MIN_SIZE = 387"

definition KEYS_AND_CERT_DATA_SIZE :: nat where
  "KEYS_AND_CERT_DATA_SIZE = 384"

text \<open>
  The interfaces \<^verbatim>\<open>crypto.PublicKey\<close> and \<^verbatim>\<open>crypto.SigningPublicKey\<close>: the legacy
  \<^verbatim>\<open>ElgPublicKey\<close> (\<^verbatim>\<open>[256]byte\<close>) and \<^verbatim>\<open>DSAPublicKey\<close> (\<^verbatim>\<open>[128]byte\<close>), or a key
  that a key certificate constructs. A nil interface is \<open>None\<close>.
\<close>

datatype 'k PublicKey = ElgPublicKey "byte list" | KeyCertPublicKey 'k

datatype 's SigningPublicKey = DSAPublicKey "byte list" | KeyCertSigningPublicKey 's

text \<open>
  The error created in \<^verbatim>\<open>ReadKeysAndCert\<close> and \<^verbatim>\<open>ReadKeys\<close> (\<^verbatim>\<open>data is smaller than
  minimum valid size\<close>), and the errors that the certificate code hands back.
\<close>

datatype 'e kc_error = KeysAndCertTooSmall | CertificateError 'e

datatype go_panic = SliceBoundsOutOfRange

text \<open>
  The certificate code is not part of these files. What \<^verbatim>\<open>ReadKeysAndCert\<close> and
  \<^verbatim>\<open>ReadKeys\<close> use of it is a parameter: the constant \<^verbatim>\<open>CERT_KEY\<close>, the methods
  \<^verbatim>\<open>Type\<close> and \<^verbatim>\<open>Length\<close> of a \<^verbatim>\<open>Certificate\<close> (each returns a value and an error),
  the zero value \<^verbatim>\<open>Certificate{}\<close>, \<^verbatim>\<open>ReadCertificate\<close>, and the two constructors of
  \<^verbatim>\<open>KeyCertificate\<close>, which take the certificate type stored in \<^verbatim>\<open>PKType\<close> or
  \<^verbatim>\<open>SPKType\<close> and the key bytes.
\<close>

record ('cert, 'k, 's, 'e) cert_code =
  CERT_KEY :: int
  cert_Type :: "'cert \<Rightarrow> int \<times> 'e option"
  cert_Length :: "'cert \<Rightarrow> int \<times> 'e option"
  zero_Certificate :: 'cert
  ReadCertificate :: "byte list \<Rightarrow> 'cert \<times> byte list \<times> 'e option"
  ConstructPublicKey :: "int \<Rightarrow> byte list \<Rightarrow> 'k PublicKey option \<times> 'e option"
  ConstructSigningPublicKey :: "int \<Rightarrow> byte list \<Rightarrow> 's SigningPublicKey option \<times> 'e option"

record ('cert, 'k, 's) KeysAndCert =
  kac_SigningPublicKey :: "'s SigningPublicKey option"
  kac_PublicKey :: "'k PublicKey option"
  kac_Certificate :: 'cert

definition zero_KeysAndCert :: "('cert, 'k, 's, 'e) cert_code \<Rightarrow> ('cert, 'k, 's) KeysAndCert" where
  "zero_KeysAndCert cc =
     \<lparr>kac_SigningPublicKey = None, kac_PublicKey = None, kac_Certificate = zero_Certificate cc\<rparr>"

definition GetCertificate ::
  "('cert, 'k, 's, 'e) cert_code \<Rightarrow> ('cert, 'k, 's) KeysAndCert \<Rightarrow> 'cert \<times> 'e option" where
  "GetCertificate cc keys_and_cert =
     (case snd (cert_Type cc (kac_Certificate keys_and_cert)) of
        Some e \<Rightarrow> (zero_Certificate cc, Some e)
      | None \<Rightarrow> (kac_Certificate keys_and_cert, None))"

text \<open>
  The results of \<^verbatim>\<open>ReadKeys\<close>, and with them the contents of the caller's buffer
  \<open>data\<close> after the call: \<^verbatim>\<open>copy(data[:KEYS_AND_CERT_PUBKEY_SIZE], elg_key[:])\<close> writes
  into it.
\<close>

record ('k, 's, 'e) ReadKeys_result =
  rk_spk :: "'s SigningPublicKey option"
  rk_pk :: "'k PublicKey option"
  rk_remainder :: "byte list"
  rk_err :: "'e kc_error option"
  rk_data :: "byte list"

text \<open>
  \<^verbatim>\<open>ReadKeys\<close>. The statements run in the order of the source: the public key, then
  the signing key (its \<open>err\<close> replaces the one of the public key), then the
  remainder. The branches for \<open>data_len = 0\<close> slice an empty buffer; they are never
  reached, since \<open>data_len < 387\<close> has returned before. The assignments to
  \<^verbatim>\<open>cert.CertBytes\<close> change a local copy that is not returned; the slice expression
  in the last one panics for a negative length.
\<close>

definition ReadKeys ::
  "('cert, 'k, 's, 'e) cert_code \<Rightarrow> byte list \<Rightarrow> 'cert
     \<Rightarrow> go_panic + ('k, 's, 'e) ReadKeys_result" where
  "ReadKeys cc data cert =
     (let data_len = length data in
      if data_len < KEYS_AND_CERT_MIN_SIZE
      then Inr \<lparr>rk_spk = None, rk_pk = None, rk_remainder = [],
                rk_err = Some KeysAndCertTooSmall, rk_data = data\<rparr>
      else if data_len = 0 then Inl SliceBoundsOutOfRange
      else
        (let cert_type = fst (cert_Type cc cert);
             (pk, err1, data1) =
               (if cert_type = CERT_KEY cc
                then (let (k, e) = ConstructPublicKey cc cert_type (take KEYS_AND_CERT_PUBKEY_SIZE data)
                      in (k, map_option CertificateError e, data))
                else (let elg_key = replicate 256 0
                      in (Some (ElgPublicKey elg_key), None,
                          copy_bytes (take KEYS_AND_CERT_PUBKEY_SIZE data) elg_key
                            @ drop KEYS_AND_CERT_PUBKEY_SIZE data)));
             spk_slot = take KEYS_AND_CERT_SPK_SIZE (drop KEYS_AND_CERT_PUBKEY_SIZE data1);
             (spk, err2) =
               (if cert_type = CERT_KEY cc
                then (let (k, e) = ConstructSigningPublicKey cc cert_type spk_slot
                      in (k, map_option CertificateError e))
                else (Some (DSAPublicKey (copy_bytes (replicate 128 0) spk_slot)), err1));
             (cert_len, cert_len_err) = cert_Length cc cert
         in if cert_len = 0
            then Inr \<lparr>rk_spk = spk, rk_pk = pk,
                      rk_remainder = drop KEYS_AND_CERT_MIN_SIZE data1,
                      rk_err = err2, rk_data = data1\<rparr>
            else if int data_len < int KEYS_AND_CERT_MIN_SIZE + cert_len
            then Inr \<lparr>rk_spk = spk, rk_pk = pk, rk_remainder = [],
                      rk_err = map_option CertificateError cert_len_err, rk_data = data1\<rparr>
            else if cert_len < 0 then Inl SliceBoundsOutOfRange
            else Inr \<lparr>rk_spk = spk, rk_pk = pk,
                      rk_remainder = drop (KEYS_AND_CERT_MIN_SIZE + nat cert_len) data1,
                      rk_err = err2, rk_data = data1\<rparr>))"

text \<open>
  \<^verbatim>\<open>ReadKeysAndCert\<close> returns \<open>(keys_and_cert, remainder, err)\<close>; the certificate
  handed to \<^verbatim>\<open>ReadKeys\<close> is the one of the still empty \<open>keys_and_cert\<close>.
\<close>

definition ReadKeysAndCert ::
  "('cert, 'k, 's, 'e) cert_code \<Rightarrow> byte list
     \<Rightarrow> go_panic + (('cert, 'k, 's) KeysAndCert \<times> byte list \<times> 'e kc_error option)" where
  "ReadKeysAndCert cc data =
     (let data_len = length data;
          keys_and_cert = zero_KeysAndCert cc
      in if data_len < KEYS_AND_CERT_MIN_SIZE
         then Inr (keys_and_cert, [], Some KeysAndCertTooSmall)
         else
           (case ReadCertificate cc (take KEYS_AND_CERT_MIN_SIZE data) of
              (_, remainder, Some e) \<Rightarrow> Inr (keys_and_cert, remainder, Some (CertificateError e))
            | (_, _, None) \<Rightarrow>
                (let cert = fst (GetCertificate cc keys_and_cert)
                 in case ReadKeys cc data cert of
                      Inl p \<Rightarrow> Inl p
                    | Inr res \<Rightarrow>
                        (case rk_err res of
                           Some e \<Rightarrow> Inr (keys_and_cert, rk_remainder res, Some e)
                         | None \<Rightarrow>
                             Inr (\<lparr>kac_SigningPublicKey = rk_spk res,
                                   kac_PublicKey = rk_pk res,
                                   kac_Certificate = cert\<rparr>,
                                  rk_remainder res, None)))))"

text \<open>
  Modelled from the spec: the certificate code, which is not part of these files, for
  evaluation. A certificate is a type tag and a payload with its length (spec, sections
  3 and 6); here it is the pair of its type and its length. The types NULL, HASHCASH,
  HIDDEN, SIGNED, MULTIPLE, KEY are numbered from 0, so \<^verbatim>\<open>CERT_KEY\<close> is 5. No
  call fails, and the key certificate constructs no key.
\<close>

definition plain_cert_code :: "(int \<times> int, unit, unit, string) cert_code" where
  "plain_cert_code =
     \<lparr>CERT_KEY = 5,
      cert_Type = (\<lambda>c. (fst c, None)),
      cert_Length = (\<lambda>c. (snd c, None)),
      zero_Certificate = (0, 0),
      ReadCertificate = (\<lambda>d. ((0, 0), [], None)),
      ConstructPublicKey = (\<lambda>t d. (None, None)),
      ConstructSigningPublicKey = (\<lambda>t d. (None, None))\<rparr>"

section \<open>lib/transport/ntcp: constants, addresses, compatibility\<close>

definition NTCP_PROTOCOL_VERSION :: int where
  "NTCP_PROTOCOL_VERSION = 2"

definition NTCP_PROTOCOL_NAME :: string where
  "NTCP_PROTOCOL_NAME = ''NTCP2''"

definition NTCP_MESSAGE_MAX_SIZE :: nat where
  "NTCP_MESSAGE_MAX_SIZE = 65537"

text \<open>
  A \<^verbatim>\<open>RouterAddress\<close>, as far as the transport reads it: what
  \<^verbatim>\<open>addr.TransportStyle().Data()\<close> returns (a string and an error) and what
  \<^verbatim>\<open>addr.StaticKey()\<close> returns (the key bytes and an error). Both methods belong to
  packages outside these files; \<open>'e\<close> is the type of their errors.
\<close>

record 'e RouterAddress =
  TransportStyle_Data :: "string \<times> 'e option"
  StaticKey :: "byte list \<times> 'e option"

datatype 'e ntcp_error =
    RemoteStaticKeyError
  | AddressError 'e
  | KeySizeError nat
  | PanicNotFullBlocks

text \<open>
  \<^verbatim>\<open>Transport.Compatible\<close>, on the list \<^verbatim>\<open>routerInfo.RouterAddresses()\<close>: an address
  whose transport style cannot be read is skipped.
\<close>

fun Compatible :: "'e RouterAddress list \<Rightarrow> bool" where
  "Compatible [] = False"
| "Compatible (addr # addresses) =
     (case TransportStyle_Data addr of
        (transportStyle, Some err) \<Rightarrow> Compatible addresses
      | (transportStyle, None) \<Rightarrow>
          if transportStyle = NTCP_PROTOCOL_NAME then True else Compatible addresses)"

text \<open>
  An \<^verbatim>\<open>NTCP2Session\<close> holds the peer's \<^verbatim>\<open>RouterInfo\<close> through the embedded noise
  session; \<open>session_RouterAddresses\<close> is \<^verbatim>\<open>s.RouterInfo.RouterAddresses()\<close>.
\<close>

record 'e NTCP2Session =
  session_RouterAddresses :: "'e RouterAddress list"

text \<open>\<^verbatim>\<open>peerStaticKey\<close> returns the pair of the key and the error.\<close>

fun peerStaticKey_loop :: "'e RouterAddress list \<Rightarrow> byte list \<times> 'e ntcp_error option" where
  "peerStaticKey_loop [] = (replicate 32 0, Some RemoteStaticKeyError)"
| "peerStaticKey_loop (addr # addresses) =
     (case TransportStyle_Data addr of
        (transportStyle, Some err) \<Rightarrow> peerStaticKey_loop addresses
      | (transportStyle, None) \<Rightarrow>
          if transportStyle = NTCP_PROTOCOL_NAME
          then (fst (StaticKey addr), map_option AddressError (snd (StaticKey addr)))
          else peerStaticKey_loop addresses)"

definition peerStaticKey :: "'e NTCP2Session \<Rightarrow> byte list \<times> 'e ntcp_error option" where
  "peerStaticKey s = peerStaticKey_loop (session_RouterAddresses s)"

section \<open>lib/transport/ntcp/session.go: obfuscation of the ephemeral key\<close>

text \<open>
  The block cipher of \<^verbatim>\<open>crypto/aes\<close> is a parameter: for a key, the encryption and
  the decryption of one 16-byte block. \<^verbatim>\<open>aes.NewCipher\<close> accepts keys of 16, 24 and
  32 bytes and returns a key size error otherwise.
\<close>

record block_cipher =
  block_Encrypt :: "byte list \<Rightarrow> byte list \<Rightarrow> byte list"
  block_Decrypt :: "byte list \<Rightarrow> byte list \<Rightarrow> byte list"

definition aes_BlockSize :: nat where
  "aes_BlockSize = 16"

definition NewCipher_ok :: "byte list \<Rightarrow> bool" where
  "NewCipher_ok key = (length key = 16 \<or> length key = 24 \<or> length key = 32)"

definition XORBytes :: "byte list \<Rightarrow> byte list \<Rightarrow> byte list" where
  "XORBytes x y = map2 (XOR) x y"

text \<open>
  The loop of \<^verbatim>\<open>CryptBlocks\<close> in \<^verbatim>\<open>crypto/cipher\<close> for the CBC encrypter and the CBC
  decrypter, on an input of full blocks: each plaintext block is combined with the
  previous ciphertext block, the first one with the initialization vector.
\<close>

function cbc_encrypt_blocks :: "(byte list \<Rightarrow> byte list) \<Rightarrow> byte list \<Rightarrow> byte list \<Rightarrow> byte list" where
  "cbc_encrypt_blocks enc iv src =
     (if length src = 0 then []
      else (let c = enc (XORBytes (take aes_BlockSize src) iv)
            in c @ cbc_encrypt_blocks enc c (drop aes_BlockSize src)))"
  by pat_completeness auto
termination
  by (relation "measure (\<lambda>(enc, iv, src). length src)") (auto simp: aes_BlockSize_def)

function cbc_decrypt_blocks :: "(byte list \<Rightarrow> byte list) \<Rightarrow> byte list \<Rightarrow> byte list \<Rightarrow> byte list" where
  "cbc_decrypt_blocks dec iv src =
     (if length src = 0 then []
      else (let c = take aes_BlockSize src
            in XORBytes (dec c) iv @ cbc_decrypt_blocks dec c (drop aes_BlockSize src)))"
  by pat_completeness auto
termination
  by (relation "measure (\<lambda>(dec, iv, src). length src)") (auto simp: aes_BlockSize_def)

declare cbc_encrypt_blocks.simps [simp del]
declare cbc_decrypt_blocks.simps [simp del]

text \<open>
  \<^verbatim>\<open>ObfuscateEphemeral\<close> and \<^verbatim>\<open>DeobfuscateEphemeral\<close>: the key of the cipher is the
  peer's static key, the initialization vector is 16 zero bytes, the output buffer has
  the length of the input. \<^verbatim>\<open>CryptBlocks\<close> panics on an input that is not a multiple
  of the block size.
\<close>

definition ObfuscateEphemeral ::
  "block_cipher \<Rightarrow> 'e NTCP2Session \<Rightarrow> byte list \<Rightarrow> 'e ntcp_error + byte list" where
  "ObfuscateEphemeral bc s key =
     (case peerStaticKey s of
        (static, Some err) \<Rightarrow> Inl err
      | (static, None) \<Rightarrow>
          if \<not> NewCipher_ok static then Inl (KeySizeError (length static))
          else (let iv = replicate aes_BlockSize 0
                in if length key mod aes_BlockSize \<noteq> 0 then Inl PanicNotFullBlocks
                   else Inr (cbc_encrypt_blocks (block_Encrypt bc static) iv key)))"

definition DeobfuscateEphemeral ::
  "block_cipher \<Rightarrow> 'e NTCP2Session \<Rightarrow> byte list \<Rightarrow> 'e ntcp_error + byte list" where
  "DeobfuscateEphemeral bc s obfuscated =
     (case peerStaticKey s of
        (static, Some err) \<Rightarrow> Inl err
      | (static, None) \<Rightarrow>
          if \<not> NewCipher_ok static then Inl (KeySizeError (length static))
          else (let iv = replicate aes_BlockSize 0
                in if length obfuscated mod aes_BlockSize \<noteq> 0 then Inl PanicNotFullBlocks
                   else Inr (cbc_decrypt_blocks (block_Decrypt bc static) iv obfuscated)))"

text \<open>
  A block cipher for evaluation: a block is reversed and combined with the first
  sixteen bytes of the key.
\<close>

definition mask_cipher :: block_cipher where
  "mask_cipher =
     \<lparr>block_Encrypt = (\<lambda>key b. XORBytes (rev b) (take 16 key)),
      block_Decrypt = (\<lambda>key b. rev (XORBytes b (take 16 key)))\<rparr>"

section \<open>SessionRequestProcessor.CreateMessage\<close>













section \<open>Big-endian round trip\<close>

lemma Uint64_step:
  "push_bit 8 (drop_bit (k + 8) w) OR ucast (ucast (drop_bit k w) :: byte) = (drop_bit k w :: 64 word)"
proof (rule bit_word_eqI)
  fix n assume n: "n < LENGTH(64)"
  show "bit (push_bit 8 (drop_bit (k + 8) w) OR ucast (ucast (drop_bit k w) :: byte)) n
        = bit (drop_bit k w) n"
  proof (cases "n < 8")
    case True
    then show ?thesis by (simp add: bit_simps)
  next
    case False
    then have "n - 8 + (k + 8) = n + k" by simp
    with False n show ?thesis by (simp add: bit_simps add.commute)
  qed
qed

lemma Uint64_top: "ucast (ucast (drop_bit 56 w) :: byte) = (drop_bit 56 w :: 64 word)"
  using Uint64_step [of 56 w] by simp

lemma Uint64_PutUint64: "Uint64 (PutUint64 v) = v"
proof -
  have "Uint64 (PutUint64 v) = drop_bit 0 v"
    unfolding Uint64_def PutUint64_def
    using Uint64_step [of 0 v] Uint64_step [of 8 v] Uint64_step [of 16 v]
      Uint64_step [of 24 v] Uint64_step [of 32 v] Uint64_step [of 40 v]
      Uint64_step [of 48 v] Uint64_top [of v]
    by (simp add: upt_rec)
  then show ?thesis by simp
qed

lemma length_PutUint64: "length (PutUint64 v) = 8"
  by (simp add: PutUint64_def)

lemma range_scan_zeros:
  "xs \<noteq> [] \<Longrightarrow>
     i \<le> range_scan xs i index \<and> range_scan xs i index < i + length xs \<and>
     take (range_scan xs i index - i) xs = replicate (range_scan xs i index - i) 0"
proof (induction xs arbitrary: i index)
  case Nil
  then show ?case by simp
next
  case (Cons j rest)
  show ?case
  proof (cases "j \<noteq> 0")
    case True
    then show ?thesis by simp
  next
    case j0: False
    show ?thesis
    proof (cases rest)
      case Nil
      with j0 show ?thesis by simp
    next
      case (Cons a list)
      then have "rest \<noteq> []" by simp
      from Cons.IH [OF this, of "Suc i" i]
      have ih: "Suc i \<le> range_scan rest (Suc i) i"
        "range_scan rest (Suc i) i < Suc i + length rest"
        "take (range_scan rest (Suc i) i - Suc i) rest
           = replicate (range_scan rest (Suc i) i - Suc i) 0"
        by simp_all
      define r where "r = range_scan rest (Suc i) i"
      from ih have r: "Suc i \<le> r" "r < Suc i + length rest"
        "take (r - Suc i) rest = replicate (r - Suc i) 0"
        by (simp_all add: r_def)
      from r(1) have "r - i = Suc (r - Suc i)" by simp
      with r j0 have "take (r - i) (j # rest) = replicate (r - i) 0" by simp
      moreover from r have "i \<le> r" "r < i + length (j # rest)" by simp_all
      moreover from j0 have "range_scan (j # rest) i index = r" by (simp add: r_def)
      ultimately show ?thesis by simp
    qed
  qed
qed

lemma LengthBytes_drop:
  "\<exists>n. n \<le> 6 \<and> LengthBytes v = drop n (PutUint64 v) \<and> take n (PutUint64 v) = replicate n 0"
proof -
  define onumber where "onumber = PutUint64 v"
  define index where "index = range_scan onumber 0 0"
  define index' where "index' = (if length (drop index onumber) = 1 then index - 1 else index)"
  have len: "length onumber = 8" by (simp add: onumber_def length_PutUint64)
  then have "onumber \<noteq> []" by auto
  from range_scan_zeros [OF this, of 0 0]
  have idx: "index < 8" "take index onumber = replicate index 0"
    by (simp_all add: index_def len)
  have le: "index' \<le> index" by (simp add: index'_def)
  have "index' \<le> 6" using idx(1) len by (auto simp: index'_def)
  moreover have "take index' onumber = replicate index' 0"
  proof -
    have "take index' onumber = take index' (take index onumber)" using le by (simp add: min_def)
    also have "\<dots> = replicate index' 0" using le idx(2) by (simp add: min_def)
    finally show ?thesis .
  qed
  moreover have "LengthBytes v = drop index' onumber"
    by (simp add: LengthBytes_def Let_def onumber_def index_def index'_def)
  ultimately show ?thesis unfolding onumber_def by blast
qed

lemma Length_LengthBytes_word: "Length (LengthBytes v) = v"
proof -
  from LengthBytes_drop [of v] obtain n where n: "n \<le> 6"
    "LengthBytes v = drop n (PutUint64 v)" "take n (PutUint64 v) = replicate n 0"
    by blast
  have "replicate n 0 @ drop n (PutUint64 v) = PutUint64 v"
    using n(3) append_take_drop_id [of n "PutUint64 v"] by simp
  then have "Length (LengthBytes v) = Uint64 (PutUint64 v)"
    using n(1) by (cases "n = 0") (simp_all add: Length_def n(2) Let_def INTEGER_SIZE_def length_PutUint64)
  then show ?thesis by (simp add: Uint64_PutUint64)
qed

lemma length_LengthBytes: "2 \<le> length (LengthBytes v) \<and> length (LengthBytes v) \<le> 8"
proof -
  from LengthBytes_drop [of v] obtain n where n: "n \<le> 6"
    "LengthBytes v = drop n (PutUint64 v)"
    by blast
  then show ?thesis by (simp add: length_PutUint64)
qed

text \<open>
  C10. For every non-negative integer \<open>v\<close> representable in 63 bits (a non-negative Go
  \<open>int\<close>), \<open>Length (LengthBytes v) = v\<close>, and the encoding is at least 2 bytes long.
\<close>

theorem C10_Length_LengthBytes_roundtrip:
  assumes "0 \<le> v" and "v < 2 ^ 63"
  shows "sint (Length (LengthBytes (word_of_int v))) = v
         \<and> 2 \<le> length (LengthBytes (word_of_int v))"
proof -
  have "sint (word_of_int v :: 64 word) = v"
    using assms by (simp add: signed_of_int signed_take_bit_int_eq_self)
  then show ?thesis
    by (simp add: Length_LengthBytes_word length_LengthBytes)
qed

theorem C10_witness:
  "sint (Length (LengthBytes (word_of_int 0))) = 0
   \<and> 2 \<le> length (LengthBytes (word_of_int 0))
   \<and> sint (Length (LengthBytes (word_of_int (2 ^ 56)))) = 2 ^ 56"
  using C10_Length_LengthBytes_roundtrip [of 0] C10_Length_LengthBytes_roundtrip [of "2 ^ 56"]
  by simp

lemma dsap_value: "dsap = 109562555141185572592979399169788194164397094775005146407392677495381913755607968244477236408557208379726401338240052325714171822842630720462775574244994319498411672396013371979368111175489307598999756694593395222067217750072023982586443391041775511025125000701345024062639875105633402337620615096306473114771"
  by (simp add: dsap_def SetBytes_def)

lemma dsaq_value: "dsaq = 946973492127138470610046971589692458716327069367"
  by (simp add: dsaq_def SetBytes_def)

section \<open>Facts about big-endian bytes\<close>

lemma foldl_be_shift:
  "foldl (\<lambda>acc b. acc * 256 + unat (b :: byte)) a xs
     = a * 256 ^ length xs + foldl (\<lambda>acc b. acc * 256 + unat b) 0 xs"
proof (induction xs arbitrary: a)
  case Nil
  then show ?case by simp
next
  case (Cons x xs)
  have "foldl (\<lambda>acc b. acc * 256 + unat b) a (x # xs)
          = foldl (\<lambda>acc b. acc * 256 + unat b) (a * 256 + unat x) xs"
    by simp
  also have "\<dots> = (a * 256 + unat x) * 256 ^ length xs
                     + foldl (\<lambda>acc b. acc * 256 + unat b) 0 xs"
    by (rule Cons.IH)
  also have "foldl (\<lambda>acc b. acc * 256 + unat b) 0 (x # xs)
               = unat x * 256 ^ length xs + foldl (\<lambda>acc b. acc * 256 + unat b) 0 xs"
    using Cons.IH [of "unat x"] by simp
  ultimately show ?case by (simp add: algebra_simps)
qed

lemma SetBytes_Nil: "SetBytes [] = 0"
  by (simp add: SetBytes_def)

lemma SetBytes_append:
  "SetBytes (xs @ ys) = SetBytes xs * 256 ^ length ys + SetBytes ys"
proof -
  have "SetBytes (xs @ ys) = foldl (\<lambda>acc b. acc * 256 + unat b) (SetBytes xs) ys"
    by (simp add: SetBytes_def)
  also have "\<dots> = SetBytes xs * 256 ^ length ys + foldl (\<lambda>acc b. acc * 256 + unat b) 0 ys"
    by (rule foldl_be_shift)
  finally show ?thesis by (simp add: SetBytes_def)
qed

lemma SetBytes_snoc: "SetBytes (xs @ [b]) = SetBytes xs * 256 + unat b"
  by (simp add: SetBytes_def)

lemma SetBytes_zeros: "SetBytes (replicate n 0) = 0"
  by (induction n) (simp_all add: SetBytes_def)

lemma SetBytes_pad: "SetBytes (replicate n 0 @ xs) = SetBytes xs"
  by (simp add: SetBytes_append SetBytes_zeros)

lemma SetBytes_less: "SetBytes xs < 256 ^ length xs"
proof (induction xs rule: rev_induct)
  case Nil
  then show ?case by (simp add: SetBytes_def)
next
  case (snoc b xs)
  have "unat b < 2 ^ LENGTH(8)" by (rule unsigned_less)
  then have "unat b < 256" by simp
  moreover from snoc have "SetBytes xs + 1 \<le> 256 ^ length xs" by simp
  then have "(SetBytes xs + 1) * 256 \<le> 256 ^ length xs * 256" by (rule mult_le_mono1)
  ultimately show ?case by (simp add: SetBytes_snoc)
qed

lemma Bytes_0: "Bytes 0 = []"
  by (simp add: Bytes.simps)

lemma Bytes_pos: "n \<noteq> 0 \<Longrightarrow> Bytes n = Bytes (n div 256) @ [of_nat (n mod 256)]"
  by (subst Bytes.simps) simp

lemma SetBytes_Bytes: "SetBytes (Bytes n) = n"
proof (induction n rule: Bytes.induct)
  case (1 n)
  show ?case
  proof (cases "n = 0")
    case True
    then show ?thesis by (simp add: Bytes_0 SetBytes_Nil)
  next
    case False
    have "unat (of_nat (n mod 256) :: byte) = n mod 256"
      by (simp add: unat_of_nat)
    with False "1.IH" show ?thesis
      by (simp add: Bytes_pos SetBytes_snoc)
  qed
qed

lemma length_Bytes_le: "n < 256 ^ k \<Longrightarrow> length (Bytes n) \<le> k"
proof (induction n arbitrary: k rule: Bytes.induct)
  case (1 n)
  show ?case
  proof (cases "n = 0")
    case True
    then show ?thesis by (simp add: Bytes_0)
  next
    case False
    with "1.prems" obtain j where k: "k = Suc j" by (cases k) auto
    with "1.prems" have "n div 256 < 256 ^ j"
      by (simp add: less_mult_imp_div_less)
    from "1.IH" [OF False this] False k show ?thesis
      by (simp add: Bytes_pos)
  qed
qed

lemma Exp_0: "Exp x 0 m = 1 mod m"
  by (subst Exp.simps) simp

lemma Exp_even: "y \<noteq> 0 \<Longrightarrow> even y \<Longrightarrow> Exp x y m = (Exp x (y div 2) m * Exp x (y div 2) m) mod m"
  by (subst Exp.simps) (simp add: Let_def)

lemma Exp_odd: "odd y \<Longrightarrow> Exp x y m = ((Exp x (y div 2) m * Exp x (y div 2) m) mod m * x) mod m"
  by (subst Exp.simps) (auto simp: Let_def)

lemma Exp_power: "Exp x y m = x ^ y mod m"
proof (induction x y m rule: Exp.induct)
  case (1 x y m)
  show ?case
  proof (cases "y = 0")
    case True
    then show ?thesis by (simp add: Exp_0)
  next
    case False
    define h where "h = y div 2"
    have ih: "Exp x h m = x ^ h mod m" unfolding h_def by (rule "1.IH" [OF False])
    have "(x ^ h mod m * (x ^ h mod m)) mod m = (x ^ h * x ^ h) mod m"
      by (rule mod_mult_eq)
    also have "x ^ h * x ^ h = x ^ (h + h)" by (simp only: power_add)
    finally have sq: "(x ^ h mod m * (x ^ h mod m)) mod m = x ^ (h + h) mod m" .
    show ?thesis
    proof (cases "even y")
      case True
      then have "y = h + h" by (auto simp: h_def)
      moreover have "Exp x y m = (Exp x h m * Exp x h m) mod m"
        unfolding h_def using False True by (rule Exp_even)
      ultimately show ?thesis using ih sq by simp
    next
      case odd: False
      then have y: "y = Suc (h + h)" by (auto simp: h_def elim: oddE)
      have "Exp x y m = ((Exp x h m * Exp x h m) mod m * x) mod m"
        unfolding h_def using odd by (rule Exp_odd)
      also have "\<dots> = (x ^ (h + h) mod m * x) mod m" using ih sq by simp
      also have "\<dots> = (x ^ (h + h) * x) mod m" by (rule mod_mult_left_eq)
      also have "x ^ (h + h) * x = x ^ Suc (h + h)" by simp
      finally show ?thesis using y by simp
    qed
  qed
qed

lemma copy_bytes_same_length: "length dst = length src \<Longrightarrow> copy_bytes dst src = src"
  by (simp add: copy_bytes_def)

lemma two_160: "(2::nat) ^ 160 = 256 ^ 20"
  by simp

lemma dsap_ge: "2 ^ 160 \<le> dsap"
  by (simp add: dsap_value)

lemma dsaq_less_dsap: "dsaq < dsap"
  by (simp add: dsap_value dsaq_value)

lemma dsaq_less: "dsaq < 2 ^ 160"
  by (simp add: dsaq_value)

section \<open>The legacy DSA adapter\<close>

text \<open>
  C5. \<open>VerifyHash\<close> returns \<open>ErrBadSignatureSize\<close> if and only if the signature is not
  40 bytes long; for a 40-byte signature it returns \<open>ErrInvalidSignature\<close> exactly when
  DSA verification of \<open>(r, s) = (sig[0:20], sig[20:40])\<close> fails and nil exactly when it
  succeeds. So nil is returned only for a 40-byte signature that verifies.
\<close>

theorem C5_VerifyHash_errors:
  "(VerifyHash dsa_Verify v h sig = Some ErrBadSignatureSize) = (length sig \<noteq> 40)
   \<and> (VerifyHash dsa_Verify v h sig = Some ErrInvalidSignature)
       = (length sig = 40
          \<and> \<not> dsa_Verify (verifier_k v) h (SetBytes (take 20 sig)) (SetBytes (drop 20 sig)))
   \<and> (VerifyHash dsa_Verify v h sig = None)
       = (length sig = 40
          \<and> dsa_Verify (verifier_k v) h (SetBytes (take 20 sig)) (SetBytes (drop 20 sig)))"
  by (simp add: VerifyHash_def Let_def)

text \<open>
  C6. A signature produced by \<open>SignHash\<close> is exactly 40 bytes: bytes 0..19 are the
  big-endian bytes of \<open>r\<close> after leading zero bytes, bytes 20..39 those of \<open>s\<close>. The
  values \<open>r\<close> and \<open>s\<close> that \<^verbatim>\<open>dsa.Sign\<close> returns are below the 160-bit \<open>q\<close>.
\<close>

theorem C6_SignHash_layout:
  assumes k: "signer_k ds = Some k"
    and rs: "dsa_Sign k h = Inr (r, s)"
    and r: "r < 2 ^ 160"
    and s: "s < 2 ^ 160"
  shows "\<exists>sig. SignHash dsa_Sign ds h = Inr sig \<and> length sig = 40
           \<and> take 20 sig = replicate (20 - length (Bytes r)) 0 @ Bytes r
           \<and> drop 20 sig = replicate (20 - length (Bytes s)) 0 @ Bytes s
           \<and> SetBytes (take 20 sig) = r \<and> SetBytes (drop 20 sig) = s"
proof -
  define rb where "rb = Bytes r"
  define sb where "sb = Bytes s"
  define rl where "rl = length rb"
  define sl where "sl = length sb"
  define sig1 where "sig1 = take (20 - rl) (replicate 40 0)
                              @ copy_bytes (take rl (drop (20 - rl) (replicate 40 0))) rb
                              @ drop 20 (replicate 40 (0::byte))"
  define sig where "sig = take (40 - sl) sig1 @ copy_bytes (drop (40 - sl) sig1) sb"
  have rl: "rl \<le> 20" unfolding rl_def rb_def using r by (intro length_Bytes_le) (simp add: two_160)
  have sl: "sl \<le> 20" unfolding sl_def sb_def using s by (intro length_Bytes_le) (simp add: two_160)
  define A where "A = replicate (20 - rl) (0::byte) @ rb"
  define B where "B = replicate (20 - sl) (0::byte) @ sb"
  have lenA: "length A = 20" using rl by (simp add: A_def rl_def)
  have lenB: "length B = 20" using sl by (simp add: B_def sl_def)
  have "copy_bytes (take rl (drop (20 - rl) (replicate 40 0))) rb = rb"
    using rl by (intro copy_bytes_same_length) (simp add: rl_def)
  then have sig1: "sig1 = A @ replicate 20 0"
    using rl by (simp add: sig1_def min_def A_def)
  have "copy_bytes (drop (40 - sl) sig1) sb = sb"
    using sl lenA by (intro copy_bytes_same_length) (simp add: sig1 sl_def)
  moreover have "take (40 - sl) sig1 = A @ replicate (20 - sl) 0"
    using sl lenA unfolding sig1 by (simp add: min_def)
  ultimately have sig: "sig = A @ B"
    by (simp add: sig_def B_def)
  have "SignHash dsa_Sign ds h = Inr sig"
    using rl sl
    by (simp add: SignHash_def k rs Let_def sig_def sig1_def rl_def sl_def rb_def sb_def)
  moreover have "length sig = 40"
    using lenA lenB unfolding sig by simp
  moreover have t: "take 20 sig = replicate (20 - rl) 0 @ rb"
    using lenA unfolding sig by (simp add: A_def)
  moreover have d: "drop 20 sig = replicate (20 - sl) 0 @ sb"
    using lenA unfolding sig by (simp add: B_def)
  moreover have "SetBytes (take 20 sig) = r"
    unfolding t by (simp add: SetBytes_pad rb_def SetBytes_Bytes)
  moreover have "SetBytes (drop 20 sig) = s"
    unfolding d by (simp add: SetBytes_pad sb_def SetBytes_Bytes)
  ultimately show ?thesis
    by (simp add: rl_def sl_def rb_def sb_def)
qed

theorem C6_witness:
  "(258::nat) < 2 ^ 160 \<and> (5::nat) < 2 ^ 160
   \<and> (\<exists>sig. SignHash (\<lambda>k h. Inr (258, 5)) (NewSigner (replicate 20 1)) [] = Inr sig
          \<and> length sig = 40 \<and> SetBytes (take 20 sig) = 258 \<and> SetBytes (drop 20 sig) = 5)"
proof -
  have lt: "SetBytes (replicate 20 1) < dsap"
    using SetBytes_less [of "replicate 20 1"] dsap_ge by (simp add: two_160)
  obtain k where k: "signer_k (NewSigner (replicate 20 1)) = Some k"
    using lt by (simp add: NewSigner_def createDSAPrivkey_def)
  have a: "(258::nat) < 2 ^ 160" and b: "(5::nat) < 2 ^ 160" by simp_all
  from C6_SignHash_layout [of "NewSigner (replicate 20 1)" k "\<lambda>k h. Inr (258, 5)" "[]" 258 5, OF k _ a b]
  show ?thesis by auto
qed

text \<open>
  C8. \<open>createDSAPrivkey\<close> compares the private exponent with the modulus \<open>p\<close>, not with
  the subgroup order \<open>q\<close>: it returns a key, with \<open>Y = g ^ X mod p\<close>, exactly when
  \<open>X < p\<close>, and nil exactly when \<open>p \<le> X\<close>; \<open>Public\<close> then reports \<open>ErrInvalidKeyFormat\<close>.
  An exponent with \<open>q \<le> X < p\<close> is accepted.
\<close>

theorem C8_createDSAPrivkey_domain:
  "(createDSAPrivkey x = None) = (dsap \<le> x)
   \<and> (x < dsap \<longrightarrow>
        createDSAPrivkey x
          = Some \<lparr>dsa_P = dsap, dsa_Q = dsaq, dsa_G = dsag, dsa_Y = dsag ^ x mod dsap, dsa_X = x\<rparr>)
   \<and> (dsaq \<le> x \<longrightarrow> x < dsap \<longrightarrow> createDSAPrivkey x \<noteq> None)
   \<and> (snd (Public k) = Some ErrInvalidKeyFormat) = (createDSAPrivkey (SetBytes k) = None)"
  by (auto simp: createDSAPrivkey_def Exp_power Public_def split: option.splits)

theorem C8_witness:
  "dsaq \<le> dsaq \<and> dsaq < dsap \<and> createDSAPrivkey dsaq \<noteq> None
   \<and> createDSAPrivkey dsaq
       = Some \<lparr>dsa_P = dsap, dsa_Q = dsaq, dsa_G = dsag, dsa_Y = dsag ^ dsaq mod dsap, dsa_X = dsaq\<rparr>"
  using C8_createDSAPrivkey_domain [of dsaq "[]"] dsaq_less_dsap by simp

text \<open>
  C9. For a 20-byte \<open>DSAPrivateKey\<close>, \<open>Public\<close> never returns \<open>ErrInvalidKeyFormat\<close>: the
  exponent read from 20 bytes is below \<open>2 ^ 160\<close>, which is at most \<open>p\<close>, so
  \<open>createDSAPrivkey\<close> does not return nil.
\<close>

theorem C9_Public_never_invalid:
  assumes "is_DSAPrivateKey k"
  shows "snd (Public k) = None \<and> SetBytes k < 2 ^ 160 \<and> 2 ^ 160 \<le> dsap
         \<and> createDSAPrivkey (SetBytes k) \<noteq> None"
proof -
  have "SetBytes k < 256 ^ length k" by (rule SetBytes_less)
  with assms have lt: "SetBytes k < 2 ^ 160" by (simp add: is_DSAPrivateKey_def)
  then have "SetBytes k < dsap" using dsap_ge by (rule less_le_trans)
  with lt dsap_ge show ?thesis
    by (simp add: Public_def createDSAPrivkey_def)
qed

theorem C9_witness:
  "is_DSAPrivateKey (replicate 20 255) \<and> snd (Public (replicate 20 255)) = None"
  using C9_Public_never_invalid [of "replicate 20 255"] by (simp add: is_DSAPrivateKey_def)

section \<open>KeysAndCert: minimum size and the legacy keys\<close>

lemma ReadKeys_too_small:
  "length data < 387 \<Longrightarrow>
     ReadKeys cc data cert
       = Inr \<lparr>rk_spk = None, rk_pk = None, rk_remainder = [],
              rk_err = Some KeysAndCertTooSmall, rk_data = data\<rparr>"
  by (simp add: ReadKeys_def KEYS_AND_CERT_MIN_SIZE_def)

lemma ReadKeys_err_not_too_small:
  assumes "387 \<le> length data" and "ReadKeys cc data cert = Inr res"
  shows "rk_err res \<noteq> Some KeysAndCertTooSmall"
  using assms
  by (auto simp: ReadKeys_def KEYS_AND_CERT_MIN_SIZE_def Let_def
           split: if_splits prod.splits option.splits)

text \<open>
  Without a key certificate the signing key is the 128 bytes at 256..383 of the input,
  and the public key is 256 zero bytes, whatever the input holds at 0..255; the first
  256 bytes of the buffer are zero afterwards.
\<close>

lemma ReadKeys_legacy_keys:
  assumes len: "387 \<le> length data"
    and ty: "fst (cert_Type cc cert) \<noteq> CERT_KEY cc"
    and res: "ReadKeys cc data cert = Inr res"
  shows "rk_spk res = Some (DSAPublicKey (take 128 (drop 256 data)))"
    and "rk_pk res = Some (ElgPublicKey (replicate 256 0))"
    and "rk_data res = replicate 256 0 @ drop 256 data"
proof -
  have c: "copy_bytes (take 256 data) (replicate 256 0) = replicate 256 0"
    using len by (intro copy_bytes_same_length) simp
  have d: "copy_bytes (replicate 128 0) (take 128 (drop 256 data)) = take 128 (drop 256 data)"
    using len by (intro copy_bytes_same_length) simp
  from len have n: "\<not> length data < 387" "length data \<noteq> 0" by auto
  from res ty n c d
  show "rk_spk res = Some (DSAPublicKey (take 128 (drop 256 data)))"
    and "rk_pk res = Some (ElgPublicKey (replicate 256 0))"
    and "rk_data res = replicate 256 0 @ drop 256 data"
    by (auto simp: ReadKeys_def KEYS_AND_CERT_MIN_SIZE_def KEYS_AND_CERT_PUBKEY_SIZE_def
          KEYS_AND_CERT_SPK_SIZE_def Let_def split: if_splits prod.splits)
qed

text \<open>
  C3. Without a key certificate, parsing is to yield the ElGamal public key holding
  bytes 0..255 of the input and the DSA signing key holding bytes 256..383. On an input
  of 384 bytes \<open>1\<close> followed by the NULL certificate \<open>0, 0, 0\<close>, \<open>ReadKeys\<close> returns the
  signing key with its 128 bytes \<open>1\<close>, but a public key of 256 zero bytes: the
  arguments of \<^verbatim>\<open>copy\<close> are exchanged for the public key, so the zero key is copied
  over the input.
\<close>

theorem C3_ReadKeys_public_key_zeroed:
  "ReadKeys plain_cert_code (replicate 384 1 @ [0, 0, 0]) (0, 0)
     = Inr \<lparr>rk_spk = Some (DSAPublicKey (replicate 128 1)),
            rk_pk = Some (ElgPublicKey (replicate 256 0)),
            rk_remainder = [],
            rk_err = None,
            rk_data = replicate 256 0 @ replicate 128 1 @ [0, 0, 0]\<rparr>
   \<and> take 256 (replicate 384 1 @ [0, 0, 0]) = replicate 256 (1 :: byte)
   \<and> replicate 256 (1 :: byte) \<noteq> replicate 256 0"
proof -
  have r: "replicate 384 (1::byte) = replicate 256 1 @ replicate 128 1"
    by (simp flip: replicate_add)
  have "replicate 256 (1 :: byte) \<noteq> replicate 256 0"
    by (simp add: replicate_eq_replicate)
  then show ?thesis
    unfolding r
    by (simp add: ReadKeys_def plain_cert_code_def KEYS_AND_CERT_MIN_SIZE_def
          KEYS_AND_CERT_PUBKEY_SIZE_def KEYS_AND_CERT_SPK_SIZE_def copy_bytes_def Let_def)
qed

text \<open>
  C4. For an input shorter than 387 bytes \<open>ReadKeysAndCert\<close> returns the error of the
  minimum size together with the empty \<open>KeysAndCert\<close> and no remainder; for an input of
  at least 387 bytes it does not return that error.
\<close>

theorem C4_ReadKeysAndCert_min_size:
  "(length data < 387 \<longrightarrow>
      ReadKeysAndCert cc data = Inr (zero_KeysAndCert cc, [], Some KeysAndCertTooSmall))
   \<and> (387 \<le> length data \<longrightarrow>
        (\<forall>kac rem. ReadKeysAndCert cc data \<noteq> Inr (kac, rem, Some KeysAndCertTooSmall)))"
proof (intro conjI impI allI)
  assume "length data < 387"
  then show "ReadKeysAndCert cc data = Inr (zero_KeysAndCert cc, [], Some KeysAndCertTooSmall)"
    by (simp add: ReadKeysAndCert_def KEYS_AND_CERT_MIN_SIZE_def)
next
  fix kac rem
  assume len: "387 \<le> length data"
  show "ReadKeysAndCert cc data \<noteq> Inr (kac, rem, Some KeysAndCertTooSmall)"
  proof
    assume eq: "ReadKeysAndCert cc data = Inr (kac, rem, Some KeysAndCertTooSmall)"
    obtain c r e where rc: "ReadCertificate cc (take 387 data) = (c, r, e)"
      by (cases "ReadCertificate cc (take 387 data)") auto
    show False
    proof (cases e)
      case (Some x)
      with eq len rc show False
        by (simp add: ReadKeysAndCert_def KEYS_AND_CERT_MIN_SIZE_def Let_def)
    next
      case None
      define cert where "cert = fst (GetCertificate cc (zero_KeysAndCert cc))"
      show False
      proof (cases "ReadKeys cc data cert")
        case (Inl p)
        with eq len rc None show False
          by (simp add: ReadKeysAndCert_def KEYS_AND_CERT_MIN_SIZE_def Let_def cert_def)
      next
        case (Inr res)
        from ReadKeys_err_not_too_small [OF len Inr]
        have "rk_err res \<noteq> Some KeysAndCertTooSmall" .
        with eq len rc None Inr show False
          by (auto simp: ReadKeysAndCert_def KEYS_AND_CERT_MIN_SIZE_def Let_def cert_def
                split: option.splits)
      qed
    qed
  qed
qed

theorem C4_witness:
  "length (replicate 386 (0 :: byte)) < 387
   \<and> ReadKeysAndCert plain_cert_code (replicate 386 0)
       = Inr (zero_KeysAndCert plain_cert_code, [], Some KeysAndCertTooSmall)
   \<and> 387 \<le> length (replicate 387 (0 :: byte))
   \<and> (\<forall>kac rem. ReadKeysAndCert plain_cert_code (replicate 387 0)
                   \<noteq> Inr (kac, rem, Some KeysAndCertTooSmall))"
  using C4_ReadKeysAndCert_min_size [of "replicate 386 0" plain_cert_code]
    C4_ReadKeysAndCert_min_size [of "replicate 387 0" plain_cert_code]
  by simp

section \<open>The peer's static key and compatibility\<close>

lemma Compatible_iff:
  "Compatible addresses
     = (\<exists>a \<in> set addresses. TransportStyle_Data a = (NTCP_PROTOCOL_NAME, None))"
proof (induction addresses)
  case Nil
  then show ?case by simp
next
  case (Cons addr addresses)
  obtain ts e where d: "TransportStyle_Data addr = (ts, e)"
    by (cases "TransportStyle_Data addr") auto
  with Cons show ?case by (cases e) auto
qed

lemma peerStaticKey_loop_find:
  "peerStaticKey_loop addresses
     = (case find (\<lambda>a. TransportStyle_Data a = (NTCP_PROTOCOL_NAME, None)) addresses of
          None \<Rightarrow> (replicate 32 0, Some RemoteStaticKeyError)
        | Some a \<Rightarrow> (fst (StaticKey a), map_option AddressError (snd (StaticKey a))))"
proof (induction addresses)
  case Nil
  then show ?case by simp
next
  case (Cons addr addresses)
  obtain ts e where d: "TransportStyle_Data addr = (ts, e)"
    by (cases "TransportStyle_Data addr") auto
  with Cons show ?case by (cases e) auto
qed

text \<open>
  C2. The peer's static key is read from the first address of the descriptor whose
  transport style is read without error and equals \<open>NTCP2\<close>; when there is no such
  address the result is the error \<open>RemoteStaticKeyError\<close>. \<open>Compatible\<close> is true exactly
  when there is such an address.
\<close>

theorem C2_peerStaticKey_first_match:
  "peerStaticKey s
     = (case find (\<lambda>a. TransportStyle_Data a = (NTCP_PROTOCOL_NAME, None))
               (session_RouterAddresses s) of
          None \<Rightarrow> (replicate 32 0, Some RemoteStaticKeyError)
        | Some a \<Rightarrow> (fst (StaticKey a), map_option AddressError (snd (StaticKey a))))
   \<and> (\<not> Compatible (session_RouterAddresses s)
        \<longrightarrow> snd (peerStaticKey s) = Some RemoteStaticKeyError)
   \<and> Compatible addresses
       = (\<exists>a \<in> set addresses. TransportStyle_Data a = (NTCP_PROTOCOL_NAME, None))"
proof -
  have "snd (peerStaticKey s) = Some RemoteStaticKeyError"
    if "\<not> Compatible (session_RouterAddresses s)"
  proof -
    from that have "find (\<lambda>a. TransportStyle_Data a = (NTCP_PROTOCOL_NAME, None))
                      (session_RouterAddresses s) = None"
      by (simp add: Compatible_iff find_None_iff)
    then show ?thesis by (simp add: peerStaticKey_def peerStaticKey_loop_find)
  qed
  then show ?thesis
    by (simp add: peerStaticKey_def peerStaticKey_loop_find Compatible_iff)
qed

theorem C2_witness:
  "peerStaticKey
     \<lparr>session_RouterAddresses =
        [\<lparr>TransportStyle_Data = (''SSU'', None), StaticKey = (replicate 32 1, None)\<rparr>,
         \<lparr>TransportStyle_Data = (''NTCP2'', Some ''short''), StaticKey = (replicate 32 2, None)\<rparr>,
         \<lparr>TransportStyle_Data = (''NTCP2'', None), StaticKey = (replicate 32 3, None)\<rparr>,
         \<lparr>TransportStyle_Data = (''NTCP2'', None), StaticKey = (replicate 32 4, None)\<rparr>]\<rparr>
     = (replicate 32 3, None)
   \<and> \<not> Compatible [\<lparr>TransportStyle_Data = (''SSU'', None :: string option),
                     StaticKey = (replicate 32 1, None)\<rparr>]
   \<and> snd (peerStaticKey
        \<lparr>session_RouterAddresses =
           [\<lparr>TransportStyle_Data = (''SSU'', None :: string option),
             StaticKey = (replicate 32 1, None)\<rparr>]\<rparr>)
       = Some RemoteStaticKeyError"
  using C2_peerStaticKey_first_match
      [of "\<lparr>session_RouterAddresses =
        [\<lparr>TransportStyle_Data = (''SSU'', None), StaticKey = (replicate 32 1, None)\<rparr>,
         \<lparr>TransportStyle_Data = (''NTCP2'', Some ''short''), StaticKey = (replicate 32 2, None)\<rparr>,
         \<lparr>TransportStyle_Data = (''NTCP2'', None), StaticKey = (replicate 32 3, None)\<rparr>,
         \<lparr>TransportStyle_Data = (''NTCP2'', None), StaticKey = (replicate 32 4, None)\<rparr>]\<rparr>"
          "[]"]
    C2_peerStaticKey_first_match
      [of "\<lparr>session_RouterAddresses =
           [\<lparr>TransportStyle_Data = (''SSU'', None :: string option),
             StaticKey = (replicate 32 1, None)\<rparr>]\<rparr>"
          "[\<lparr>TransportStyle_Data = (''SSU'', None :: string option),
             StaticKey = (replicate 32 1, None)\<rparr>]"]
  by (simp add: NTCP_PROTOCOL_NAME_def)

section \<open>Obfuscation and its inverse\<close>

lemma length_XORBytes: "length (XORBytes x y) = min (length x) (length y)"
  by (simp add: XORBytes_def)

lemma XORBytes_cancel: "length x = length y \<Longrightarrow> XORBytes (XORBytes x y) y = x"
proof (induction x y rule: list_induct2)
  case Nil
  then show ?case by (simp add: XORBytes_def)
next
  case (Cons a x b y)
  have "(a XOR b) XOR b = a" by (simp add: xor.assoc)
  with Cons show ?case by (simp add: XORBytes_def)
qed

lemma cbc_encrypt_blocks_Nil: "cbc_encrypt_blocks enc iv [] = []"
  by (subst cbc_encrypt_blocks.simps) simp

lemma cbc_encrypt_blocks_step:
  "src \<noteq> [] \<Longrightarrow>
     cbc_encrypt_blocks enc iv src
       = enc (XORBytes (take 16 src) iv)
           @ cbc_encrypt_blocks enc (enc (XORBytes (take 16 src) iv)) (drop 16 src)"
  by (subst cbc_encrypt_blocks.simps) (simp add: Let_def aes_BlockSize_def)

lemma cbc_decrypt_blocks_Nil: "cbc_decrypt_blocks dec iv [] = []"
  by (subst cbc_decrypt_blocks.simps) simp

lemma cbc_decrypt_blocks_step:
  "src \<noteq> [] \<Longrightarrow>
     cbc_decrypt_blocks dec iv src
       = XORBytes (dec (take 16 src)) iv @ cbc_decrypt_blocks dec (take 16 src) (drop 16 src)"
  by (subst cbc_decrypt_blocks.simps) (simp add: Let_def aes_BlockSize_def)

lemma cbc_roundtrip:
  "(\<forall>b. length b = 16 \<longrightarrow> dec (enc b) = b \<and> length (enc b) = 16) \<Longrightarrow>
   length iv = 16 \<Longrightarrow> length src mod 16 = 0 \<Longrightarrow>
     cbc_decrypt_blocks dec iv (cbc_encrypt_blocks enc iv src) = src
     \<and> length (cbc_encrypt_blocks enc iv src) = length src"
proof (induction enc iv src rule: cbc_encrypt_blocks.induct)
  case (1 enc iv src)
  note inv = "1.prems"(1)
  show ?case
  proof (cases "src = []")
    case True
    then show ?thesis by (simp add: cbc_encrypt_blocks_Nil cbc_decrypt_blocks_Nil)
  next
    case False
    with "1.prems"(3) have len: "16 \<le> length src"
      by (cases "length src < 16") auto
    define b where "b = take 16 src"
    define x where "x = XORBytes b iv"
    define c where "c = enc x"
    define rest where "rest = cbc_encrypt_blocks enc c (drop 16 src)"
    have lb: "length b = 16" using len by (simp add: b_def)
    have lx: "length x = 16" using lb "1.prems"(2) by (simp add: x_def length_XORBytes)
    have lc: "length c = 16" and dc: "dec c = x"
      using inv lx by (simp_all add: c_def)
    have m: "length (drop 16 src) mod 16 = 0"
      using "1.prems"(3) le_mod_geq [OF len] by simp
    have nz: "length src \<noteq> 0" using False by simp
    have ceq: "c = enc (XORBytes (take aes_BlockSize src) iv)"
      by (simp add: c_def x_def b_def aes_BlockSize_def)
    from "1.IH" [OF nz ceq inv lc] m
    have ih: "cbc_decrypt_blocks dec c rest = drop 16 src" "length rest = length (drop 16 src)"
      by (simp_all add: rest_def aes_BlockSize_def)
    have e: "cbc_encrypt_blocks enc iv src = c @ rest"
      using False by (simp add: cbc_encrypt_blocks_step c_def x_def b_def rest_def)
    have "c @ rest \<noteq> []" using lc by auto
    then have "cbc_decrypt_blocks dec iv (c @ rest)
                 = XORBytes (dec (take 16 (c @ rest))) iv
                     @ cbc_decrypt_blocks dec (take 16 (c @ rest)) (drop 16 (c @ rest))"
      by (rule cbc_decrypt_blocks_step)
    also have "take 16 (c @ rest) = c" using lc by simp
    also have "drop 16 (c @ rest) = rest" using lc by simp
    also have "XORBytes (dec c) iv = b"
      unfolding dc x_def using lb "1.prems"(2) by (intro XORBytes_cancel) simp
    finally have "cbc_decrypt_blocks dec iv (c @ rest) = b @ drop 16 src"
      using ih(1) by simp
    then have "cbc_decrypt_blocks dec iv (cbc_encrypt_blocks enc iv src) = src"
      unfolding e by (simp add: b_def)
    moreover have "length (cbc_encrypt_blocks enc iv src) = length src"
      unfolding e using lc ih(2) len by simp
    ultimately show ?thesis by simp
  qed
qed

lemma mask_cipher_inverse:
  "16 \<le> length key \<Longrightarrow> length b = 16 \<Longrightarrow>
     block_Decrypt mask_cipher key (block_Encrypt mask_cipher key b) = b
     \<and> length (block_Encrypt mask_cipher key b) = 16"
proof -
  assume k: "16 \<le> length key" and b: "length b = 16"
  have "XORBytes (XORBytes (rev b) (take 16 key)) (take 16 key) = rev b"
    using k b by (intro XORBytes_cancel) simp
  then show ?thesis
    using k b by (simp add: mask_cipher_def length_XORBytes)
qed

text \<open>
  C1. For a 32-byte input \<open>k\<close> and a session whose peer has the 32-byte static key
  \<open>K\<close>, \<open>ObfuscateEphemeral\<close> returns 32 bytes, and \<open>DeobfuscateEphemeral\<close> of them
  returns \<open>k\<close>. Both run CBC with a zero initialization vector and no padding under
  the key \<open>K\<close>; the block cipher of \<^verbatim>\<open>crypto/aes\<close> enters as any cipher whose block
  decryption inverts its block encryption under \<open>K\<close>.
\<close>

theorem C1_deobfuscate_obfuscate:
  assumes inv: "\<forall>b. length b = 16 \<longrightarrow>
                  block_Decrypt bc K (block_Encrypt bc K b) = b
                  \<and> length (block_Encrypt bc K b) = 16"
    and key: "peerStaticKey s = (K, None)"
    and lK: "length K = 32"
    and lk: "length k = 32"
  shows "\<exists>c. ObfuscateEphemeral bc s k = Inr c \<and> length c = 32
             \<and> DeobfuscateEphemeral bc s c = Inr k"
proof -
  define c where "c = cbc_encrypt_blocks (block_Encrypt bc K) (replicate 16 0) k"
  have "length (replicate 16 (0::byte)) = 16" by simp
  moreover have "length k mod 16 = 0" using lk by simp
  ultimately have rt: "cbc_decrypt_blocks (block_Decrypt bc K) (replicate 16 0) c = k
                       \<and> length c = length k"
    unfolding c_def using inv by (intro cbc_roundtrip)
  have ok: "NewCipher_ok K" using lK by (simp add: NewCipher_ok_def)
  have "ObfuscateEphemeral bc s k = Inr c"
    using ok lk by (simp add: ObfuscateEphemeral_def key c_def aes_BlockSize_def)
  moreover have "length c = 32" using rt lk by simp
  moreover from this have "DeobfuscateEphemeral bc s c = Inr k"
    using ok rt by (simp add: DeobfuscateEphemeral_def key aes_BlockSize_def)
  ultimately show ?thesis by blast
qed

theorem C1_witness:
  "\<exists>c. ObfuscateEphemeral mask_cipher
          \<lparr>session_RouterAddresses =
             [\<lparr>TransportStyle_Data = (''NTCP2'', None :: string option),
               StaticKey = (replicate 32 7, None)\<rparr>]\<rparr>
          (replicate 16 1 @ replicate 16 2) = Inr c
       \<and> length c = 32
       \<and> DeobfuscateEphemeral mask_cipher
           \<lparr>session_RouterAddresses =
              [\<lparr>TransportStyle_Data = (''NTCP2'', None :: string option),
                StaticKey = (replicate 32 7, None)\<rparr>]\<rparr>
           c = Inr (replicate 16 1 @ replicate 16 2)"
proof -
  have inv: "\<forall>b. length b = 16 \<longrightarrow>
               block_Decrypt mask_cipher (replicate 32 7)
                 (block_Encrypt mask_cipher (replicate 32 7) b) = b
               \<and> length (block_Encrypt mask_cipher (replicate 32 7) b) = 16"
    using mask_cipher_inverse [of "replicate 32 7"] by simp
  have key: "peerStaticKey
               \<lparr>session_RouterAddresses =
                  [\<lparr>TransportStyle_Data = (''NTCP2'', None :: string option),
                    StaticKey = (replicate 32 7, None)\<rparr>]\<rparr>
             = (replicate 32 7, None)"
    by (simp add: peerStaticKey_def NTCP_PROTOCOL_NAME_def)
  have lK: "length (replicate 32 (7::byte)) = 32" by simp
  have lk: "length (replicate 16 (1::byte) @ replicate 16 2) = 32" by simp
  from C1_deobfuscate_obfuscate [OF inv key lK lk] show ?thesis .
qed

section \<open>The options of the session request\<close>






end

